theory Spec2Isabelle
  imports Main "HOL-Library.Word"
begin

section \<open>The fish catalogue of server.go\<close>

text \<open>
  A shallow embedding of \<^verbatim>\<open>src/server.go\<close>: the \<^verbatim>\<open>Fish\<close> struct, the
  \<^verbatim>\<open>fishesHandler\<close> with its map \<^verbatim>\<open>db\<close>, and the four handlers
  \<^verbatim>\<open>getAllFishes\<close>, \<^verbatim>\<open>getRandomCoaster\<close>, \<^verbatim>\<open>getFish\<close> and \<^verbatim>\<open>addNewFish\<close> with
  the dispatcher \<^verbatim>\<open>fishes\<close>. A handler mutates the response writer and the map; the
  model passes both explicitly and returns them.

  What the handlers take from their environment is a parameter of the model:
  \<^item> \<open>keys\<close>: the order in which \<^verbatim>\<open>range h.db\<close> yields the keys of the map (Go leaves the
    order unspecified), see \<open>range_order\<close>;
  \<^item> \<open>now\<close>: the value of \<^verbatim>\<open>time.Now().UnixNano()\<close>, an \<^verbatim>\<open>int64\<close>;
  \<^item> \<open>rnd\<close>: the number drawn by the random source, from which \<^verbatim>\<open>rand.Intn(n)\<close> is
    \<open>rnd mod n\<close> (any value of \<open>[0, n)\<close> is possible, and no other);
  \<^item> \<open>Unmarshal\<close>: \<^verbatim>\<open>json.Unmarshal\<close> into a zero-valued \<^verbatim>\<open>Fish\<close>: the error text, if
    any, and the struct as the decoder left it;
  \<^item> \<open>URL_String\<close>: the string \<^verbatim>\<open>r.URL.String()\<close> returns, given with the request.
\<close>

subsection \<open>Data\<close>

record Fish =
  ID :: string
  Name :: string
  Environment :: string
  MaxLength :: int

type_synonym db = "string \<rightharpoonup> Fish"

definition newFishesHander :: db where
  "newFishesHander = Map.empty"

text \<open>
  \<open>range_order db keys\<close>: \<open>keys\<close> is an order in which a \<^verbatim>\<open>range\<close> loop may visit the
  map, every key once.
\<close>

definition range_order :: "db \<Rightarrow> string list \<Rightarrow> bool" where
  "range_order db keys = (distinct keys \<and> set keys = dom db)"

text \<open>
  JSON values. \<^verbatim>\<open>json.Marshal\<close> is modelled up to the bytes of the encoding: the body of
  a response holds the JSON value that was written. A slice is \<open>None\<close> when it is
  \<^verbatim>\<open>nil\<close>; \<^verbatim>\<open>json.Marshal\<close> encodes a nil slice as \<^verbatim>\<open>null\<close> and any other slice as an
  array. A field tagged \<^verbatim>\<open>omitempty\<close> is left out when it is the empty string or 0.
  Marshalling these types never fails; the result is still a sum, so that the
  handlers keep their error branches.
\<close>

datatype json = JNull | JNumber int | JString string | JArray "json list"
  | JObject "(string \<times> json) list"

definition omitempty :: "string \<Rightarrow> string \<Rightarrow> (string \<times> json) list" where
  "omitempty name s = (if s = [] then [] else [(name, JString s)])"

definition encode_Fish :: "Fish \<Rightarrow> json" where
  "encode_Fish f = JObject (omitempty ''id'' (ID f) @ omitempty ''name'' (Name f)
     @ omitempty ''environment'' (Environment f)
     @ (if MaxLength f = 0 then [] else [(''max_length'', JNumber (MaxLength f))]))"

definition Marshal_Fish :: "Fish \<Rightarrow> string + json" where
  "Marshal_Fish f = Inr (encode_Fish f)"

definition Marshal_Fishes :: "Fish list option \<Rightarrow> string + json" where
  "Marshal_Fishes fishes =
     (case fishes of None \<Rightarrow> Inr JNull | Some fs \<Rightarrow> Inr (JArray (map encode_Fish fs)))"

text \<open>\<^verbatim>\<open>append(fishes, fish)\<close>: appending to the nil slice gives a slice of one element.\<close>

definition append_slice :: "'a list option \<Rightarrow> 'a \<Rightarrow> 'a list option" where
  "append_slice s x = (case s of None \<Rightarrow> Some [x] | Some xs \<Rightarrow> Some (xs @ [x]))"

subsection \<open>Library calls: formatting, splitting, header keys\<close>

text \<open>\<^verbatim>\<open>fmt.Sprintf("%d", n)\<close>: the decimal digits, after a minus sign when \<open>n < 0\<close>.\<close>

definition digit_char :: "nat \<Rightarrow> char" where
  "digit_char d = char_of (48 + d)"

fun digits :: "nat \<Rightarrow> string" where
  "digits n = (if n < 10 then [digit_char n] else digits (n div 10) @ [digit_char (n mod 10)])"

declare digits.simps [simp del]

definition Sprintf_d :: "int \<Rightarrow> string" where
  "Sprintf_d n = (if n < 0 then CHR ''-'' # digits (nat (- n)) else digits (nat n))"

text \<open>\<^verbatim>\<open>strings.Split(s, sep)\<close> for a separator of one byte.\<close>

fun Split :: "string \<Rightarrow> char \<Rightarrow> string list" where
  "Split [] sep = [[]]"
| "Split (c # cs) sep =
     (if c = sep then [] # Split cs sep
      else (case Split cs sep of [] \<Rightarrow> [[c]] | p # ps \<Rightarrow> (c # p) # ps))"

text \<open>
  \<^verbatim>\<open>textproto.CanonicalMIMEHeaderKey\<close>, under which \<^verbatim>\<open>http.Header\<close> stores and looks up
  its keys: a key with a byte that is no token character is left as it is; otherwise
  the first letter and every letter after a hyphen is made upper case and the others
  lower case.
\<close>

definition validHeaderFieldByte :: "char \<Rightarrow> bool" where
  "validHeaderFieldByte c = (let n = (of_char c :: nat) in
     n = 33 \<or> (35 \<le> n \<and> n \<le> 39) \<or> n = 42 \<or> n = 43 \<or> n = 45 \<or> n = 46
     \<or> (48 \<le> n \<and> n \<le> 57) \<or> (65 \<le> n \<and> n \<le> 90) \<or> (94 \<le> n \<and> n \<le> 122)
     \<or> n = 124 \<or> n = 126)"

fun canonical :: "bool \<Rightarrow> string \<Rightarrow> string" where
  "canonical upper [] = []"
| "canonical upper (c # cs) =
     (let n = (of_char c :: nat);
          c' = (if upper \<and> 97 \<le> n \<and> n \<le> 122 then char_of (n - 32)
                else if \<not> upper \<and> 65 \<le> n \<and> n \<le> 90 then char_of (n + 32)
                else c)
      in c' # canonical (c' = CHR ''-'') cs)"

definition CanonicalMIMEHeaderKey :: "string \<Rightarrow> string" where
  "CanonicalMIMEHeaderKey s = (if list_all validHeaderFieldByte s then canonical True s else s)"

type_synonym Header = "string \<rightharpoonup> string list"

definition Header_Get :: "Header \<Rightarrow> string \<Rightarrow> string" where
  "Header_Get h key =
     (case h (CanonicalMIMEHeaderKey key) of None \<Rightarrow> [] | Some [] \<Rightarrow> [] | Some (v # vs) \<Rightarrow> v)"

definition Header_Add :: "string \<Rightarrow> string \<Rightarrow> Header \<Rightarrow> Header" where
  "Header_Add key v h =
     (let k = CanonicalMIMEHeaderKey key
      in h(k \<mapsto> (case h k of None \<Rightarrow> [v] | Some vs \<Rightarrow> vs @ [v])))"

subsection \<open>Requests and responses\<close>

text \<open>
  Of \<^verbatim>\<open>r.URL\<close> the model keeps two things. \<open>Path\<close> is the field \<^verbatim>\<open>r.URL.Path\<close>, the
  decoded path of the request. \<open>URL_String\<close> is the string that the call
  \<^verbatim>\<open>r.URL.String()\<close> of line 80 returns for the request: the path as the request
  target escapes it, followed by \<^verbatim>\<open>?\<close> and the query when the target has one, and
  after scheme and host when the target is in absolute form. How \<^verbatim>\<open>net/url\<close> computes
  that string is not modelled: it is given with the request, and nothing relates it
  to \<open>Path\<close>. \<open>Body\<close> is what \<^verbatim>\<open>ioutil.ReadAll(r.Body)\<close> returns: the bytes read and the
  error, if any.
\<close>

record URL =
  Path :: string
  URL_String :: string

record Request =
  Method :: string
  URL :: URL
  Header :: Header
  Body :: "string \<times> string option"

text \<open>
  The \<^verbatim>\<open>http.ResponseWriter\<close>: the header map the handler fills, the status code once
  \<^verbatim>\<open>WriteHeader\<close> has sent it together with the header map as it was then (later calls
  of \<^verbatim>\<open>WriteHeader\<close> and later changes of the map do not reach the client), and what was
  written to the body. \<^verbatim>\<open>Write\<close> sends status 200 first when no status was sent.
\<close>

datatype chunk = Text string | JSON json

record ResponseWriter =
  header :: Header
  status :: "nat option"
  sent_header :: Header
  body :: "chunk list"

definition fresh :: ResponseWriter where
  "fresh = \<lparr>header = Map.empty, status = None, sent_header = Map.empty, body = []\<rparr>"

definition WriteHeader :: "nat \<Rightarrow> ResponseWriter \<Rightarrow> ResponseWriter" where
  "WriteHeader code w =
     (if status w \<noteq> None then w else w\<lparr>status := Some code, sent_header := header w\<rparr>)"

definition Write :: "chunk \<Rightarrow> ResponseWriter \<Rightarrow> ResponseWriter" where
  "Write b w = (let w' = (if status w = None then WriteHeader 200 w else w)
                in w'\<lparr>body := body w' @ [b]\<rparr>)"

definition Add :: "string \<Rightarrow> string \<Rightarrow> ResponseWriter \<Rightarrow> ResponseWriter" where
  "Add key v w = w\<lparr>header := Header_Add key v (header w)\<rparr>"

text \<open>The status the client receives: 200 when the handler returned without sending one.\<close>

definition status_code :: "ResponseWriter \<Rightarrow> nat" where
  "status_code w = (case status w of None \<Rightarrow> 200 | Some c \<Rightarrow> c)"

abbreviation "StatusOK \<equiv> (200 :: nat)"
abbreviation "StatusFound \<equiv> (302 :: nat)"
abbreviation "StatusBadRequest \<equiv> (400 :: nat)"
abbreviation "StatusNotFound \<equiv> (404 :: nat)"
abbreviation "StatusMethodNotAllowed \<equiv> (405 :: nat)"
abbreviation "StatusUnsupportedMediaType \<equiv> (415 :: nat)"
abbreviation "StatusInternalServerError \<equiv> (500 :: nat)"

subsection \<open>The store operations inside the handlers\<close>

text \<open>
  \<open>ListAll\<close>: the loop of \<^verbatim>\<open>getAllFishes\<close> (lines 34 to 40), from the nil slice.
\<close>

definition ListAll :: "string list \<Rightarrow> db \<Rightarrow> Fish list option" where
  "ListAll keys db =
     fold (\<lambda>k fishes. case db k of None \<Rightarrow> fishes | Some fish \<Rightarrow> append_slice fishes fish)
       keys None"

text \<open>\<open>Get\<close>: the lookup \<^verbatim>\<open>h.db[parts[2]]\<close> of \<^verbatim>\<open>getFish\<close> (line 94).\<close>

definition Get :: "string \<Rightarrow> db \<Rightarrow> Fish option" where
  "Get key db = db key"

text \<open>
  \<open>Insert\<close>: lines 138 to 143 of \<^verbatim>\<open>addNewFish\<close>. The identifier is overwritten with the
  clock reading in decimal, and the record is stored under it.
\<close>

definition Insert :: "64 word \<Rightarrow> Fish \<Rightarrow> db \<Rightarrow> Fish \<times> db" where
  "Insert now fish db =
     (let fish' = fish\<lparr>ID := Sprintf_d (sint now)\<rparr> in (fish', db(ID fish' \<mapsto> fish')))"

text \<open>
  \<open>PickRandom\<close>: lines 54 to 73 of \<^verbatim>\<open>getRandomCoaster\<close>. The slice \<open>ids\<close> is made
  with the length of the map (\<open>make_ids\<close>, line 54, before the lock is taken); the
  loop under the lock stores the keys into it by index (\<open>fill_ids\<close>), and an index
  outside the slice is a run-time panic (\<open>None\<close>).
\<close>

definition make_ids :: "db \<Rightarrow> string list" where
  "make_ids db = replicate (card (dom db)) []"

fun fill_ids :: "string list \<Rightarrow> nat \<Rightarrow> string list \<Rightarrow> string list option" where
  "fill_ids ids i [] = Some ids"
| "fill_ids ids i (k # ks) =
     (if i < length ids then fill_ids (ids[i := k]) (Suc i) ks else None)"

datatype pick = Panic | Empty | Picked string

definition PickRandom :: "string list \<Rightarrow> string list \<Rightarrow> nat \<Rightarrow> pick" where
  "PickRandom ids0 keys rnd =
     (case fill_ids ids0 0 keys of
        None \<Rightarrow> Panic
      | Some ids \<Rightarrow>
          if length ids = 0 then Empty
          else if length ids = 1 then Picked (ids ! 0)
          else Picked (ids ! (rnd mod length ids)))"

subsection \<open>The handlers\<close>

type_synonym decoder = "string \<Rightarrow> string option \<times> Fish"

definition getAllFishes :: "string list \<Rightarrow> ResponseWriter \<Rightarrow> Request \<Rightarrow> db \<Rightarrow> ResponseWriter \<times> db" where
  "getAllFishes keys w r db =
     (let fishes = ListAll keys db;
          (w1, jsonBytes) =
            (case Marshal_Fishes fishes of
               Inl err \<Rightarrow> (Write (Text err) (WriteHeader StatusInternalServerError w), Text [])
             | Inr j \<Rightarrow> (w, JSON j))
      in (Write jsonBytes (WriteHeader StatusOK (Add ''content-type'' ''application/json'' w1)), db))"

text \<open>
  \<open>getRandomCoaster_locked\<close> is \<^verbatim>\<open>getRandomCoaster\<close> from line 56 on, for the slice
  that line 54 made; \<open>None\<close> is the panic of an index out of range.
\<close>

definition getRandomCoaster_locked ::
    "string list \<Rightarrow> string list \<Rightarrow> nat \<Rightarrow> ResponseWriter \<Rightarrow> db \<Rightarrow> (ResponseWriter \<times> db) option" where
  "getRandomCoaster_locked ids0 keys rnd w db =
     (case PickRandom ids0 keys rnd of
        Panic \<Rightarrow> None
      | Empty \<Rightarrow> Some (WriteHeader StatusNotFound w, db)
      | Picked target \<Rightarrow>
          Some (WriteHeader StatusFound (Add ''location'' (''/fishes/'' @ target) w), db))"

definition getRandomCoaster ::
    "string list \<Rightarrow> nat \<Rightarrow> ResponseWriter \<Rightarrow> Request \<Rightarrow> db \<Rightarrow> (ResponseWriter \<times> db) option" where
  "getRandomCoaster keys rnd w r db = getRandomCoaster_locked (make_ids db) keys rnd w db"

definition getFish ::
    "string list \<Rightarrow> nat \<Rightarrow> ResponseWriter \<Rightarrow> Request \<Rightarrow> db \<Rightarrow> (ResponseWriter \<times> db) option" where
  "getFish keys rnd w r db =
     (let parts = Split (URL_String (URL r)) CHR ''/''
      in if length parts \<noteq> 3 then Some (WriteHeader StatusNotFound w, db)
         else if parts ! 2 = ''random'' then getRandomCoaster keys rnd w r db
         else (case Get (parts ! 2) db of
                 None \<Rightarrow> Some (WriteHeader StatusNotFound w, db)
               | Some foundFish \<Rightarrow>
                   (case Marshal_Fish foundFish of
                      Inl err \<Rightarrow> Some (WriteHeader StatusInternalServerError w, db)
                    | Inr jsonBytes \<Rightarrow>
                        Some (Write (JSON jsonBytes)
                               (WriteHeader StatusOK (Add ''content-type'' ''application/json'' w)),
                              db))))"

text \<open>
  \<^verbatim>\<open>fmt.Sprintf("need content-type 'application/json' but got '%s'", ct)\<close>; the
  apostrophe is the byte 0x27.
\<close>

definition need_content_type :: "string \<Rightarrow> string" where
  "need_content_type ct =
     ''need content-type '' @ [CHR 0x27] @ ''application/json'' @ [CHR 0x27]
       @ '' but got '' @ [CHR 0x27] @ ct @ [CHR 0x27]"

definition addNewFish ::
    "decoder \<Rightarrow> 64 word \<Rightarrow> ResponseWriter \<Rightarrow> Request \<Rightarrow> db \<Rightarrow> ResponseWriter \<times> db" where
  "addNewFish Unmarshal now w r db =
     (case Body r of (bodyBytes, err) \<Rightarrow>
        (case err of
           Some e \<Rightarrow> (Write (Text e) (WriteHeader StatusInternalServerError w), db)
         | None \<Rightarrow>
             (let ct = Header_Get (Header r) ''content-type''
              in if ct \<noteq> ''application/json''
                 then (Write (Text (need_content_type ct))
                         (WriteHeader StatusUnsupportedMediaType w), db)
                 else (case Unmarshal bodyBytes of (err, fish) \<Rightarrow>
                         (let w1 = (case err of
                                      Some e \<Rightarrow> Write (Text e) (WriteHeader StatusBadRequest w)
                                    | None \<Rightarrow> w)
                          in (w1, snd (Insert now fish db)))))))"

definition fishes ::
    "string list \<Rightarrow> decoder \<Rightarrow> 64 word \<Rightarrow> ResponseWriter \<Rightarrow> Request \<Rightarrow> db \<Rightarrow> ResponseWriter \<times> db" where
  "fishes keys Unmarshal now w r db =
     (if Method r = ''GET'' then getAllFishes keys w r db
      else if Method r = ''POST'' then addNewFish Unmarshal now w r db
      else (Write (Text ''method not allowed'') (WriteHeader StatusMethodNotAllowed w), db))"

text \<open>
  The stores the server can be in: the empty one of \<^verbatim>\<open>newFishesHander\<close>, and the store
  after any request to \<^verbatim>\<open>/fishes\<close> or \<^verbatim>\<open>/fishes/\<close> in a store it can be in.
\<close>

inductive reachable :: "db \<Rightarrow> bool" where
  init: "reachable newFishesHander"
| fishes: "reachable db \<Longrightarrow> range_order db keys
     \<Longrightarrow> fishes keys Unmarshal now w r db = (w', db') \<Longrightarrow> reachable db'"
| getFish: "reachable db \<Longrightarrow> range_order db keys
     \<Longrightarrow> getFish keys rnd w r db = Some (w', db') \<Longrightarrow> reachable db'"

subsection \<open>Sequences of inserts, and what the proofs need\<close>

text \<open>
  \<open>Inserts calls db\<close> runs \<open>Insert\<close> once for each call, a clock reading with the
  candidate record, in order; it returns the records the calls returned and the last
  store.
\<close>

fun Inserts :: "(64 word \<times> Fish) list \<Rightarrow> db \<Rightarrow> Fish list \<times> db" where
  "Inserts [] db = ([], db)"
| "Inserts ((now, candidate) # calls) db =
     (let (fish, db') = Insert now candidate db;
          (returned, db'') = Inserts calls db'
      in (fish # returned, db''))"

text \<open>The elements of a slice; the nil slice has none.\<close>

definition elems :: "'a list option \<Rightarrow> 'a list" where
  "elems s = (case s of None \<Rightarrow> [] | Some xs \<Rightarrow> xs)"

text \<open>The number a string of decimal digits stands for (used to invert \<open>digits\<close>).\<close>

definition dval :: "string \<Rightarrow> nat" where
  "dval s = foldl (\<lambda>a c. 10 * a + (of_char c - 48)) 0 s"

text \<open>
  \<open>clock_keyed db\<close>: every record is stored under its own identifier, and every key
  is the decimal rendering of a clock reading.
\<close>

definition clock_keyed :: "db \<Rightarrow> bool" where
  "clock_keyed db = (\<forall>k f. db k = Some f \<longrightarrow> ID f = k \<and> (\<exists>t :: 64 word. k = Sprintf_d (sint t)))"

text \<open>
  The two responses of \<^verbatim>\<open>getRandomCoaster\<close> and \<^verbatim>\<open>getFish\<close> to a request that finds a
  record, on a response writer nothing was written to: the redirection to a target
  (lines 75 and 76), and the record as JSON (lines 108 to 110).
\<close>

definition redirect_to :: "string \<Rightarrow> ResponseWriter" where
  "redirect_to target = WriteHeader StatusFound (Add ''location'' (''/fishes/'' @ target) fresh)"

definition found_fish :: "Fish \<Rightarrow> ResponseWriter" where
  "found_fish f = Write (JSON (encode_Fish f))
     (WriteHeader StatusOK (Add ''content-type'' ''application/json'' fresh))"

text \<open>Concrete requests and records for the examples.\<close>

definition zero_Fish :: Fish where
  "zero_Fish = \<lparr>ID = [], Name = [], Environment = [], MaxLength = 0\<rparr>"

definition salmon :: Fish where
  "salmon = \<lparr>ID = ''mine'', Name = ''Salmon'', Environment = ''river'', MaxLength = 90\<rparr>"

definition salmon_body :: string where
  \<open>salmon_body = ''{"id":"mine","name":"Salmon","environment":"river","max_length":90}''\<close>

definition trout :: Fish where
  "trout = \<lparr>ID = [], Name = ''Trout'', Environment = ''lake'', MaxLength = 60\<rparr>"

text \<open>
  \<open>request m p s h b\<close> is the request with method \<open>m\<close> whose \<^verbatim>\<open>r.URL.Path\<close> is \<open>p\<close> and
  whose \<^verbatim>\<open>r.URL.String()\<close> is \<open>s\<close>, with header \<open>h\<close> and body \<open>b\<close>. The examples give
  both strings as \<^verbatim>\<open>net/http\<close> has them for the request target: for
  \<^verbatim>\<open>GET /fishes/random?x=1\<close> the path \<^verbatim>\<open>/fishes/random\<close> and the string
  \<^verbatim>\<open>/fishes/random?x=1\<close>.
\<close>

definition request :: "string \<Rightarrow> string \<Rightarrow> string \<Rightarrow> Header \<Rightarrow> string \<times> string option \<Rightarrow> Request" where
  "request m p s h b =
     \<lparr>Method = m, URL = \<lparr>Path = p, URL_String = s\<rparr>, Header = h, Body = b\<rparr>"

definition get_request :: "string \<Rightarrow> string \<Rightarrow> Request" where
  "get_request p s = request ''GET'' p s Map.empty ([], None)"

definition json_header :: Header where
  "json_header = [''Content-Type'' \<mapsto> [''application/json'']]"

definition plain_header :: Header where
  "plain_header = [''Content-Type'' \<mapsto> [''text/plain'']]"

text \<open>
  A decoder for the examples: it accepts the body \<^verbatim>\<open>{}\<close>, which leaves the zero-valued
  record, and the body of the salmon, and reports every other body as cut short.
\<close>

definition example_decoder :: decoder where
  "example_decoder b =
     (if b = ''{}'' then (None, zero_Fish)
      else if b = salmon_body then (None, salmon)
      else (Some ''unexpected end of JSON input'', zero_Fish))"

text \<open>
  Requests to \<^verbatim>\<open>/fishes\<close>: the salmon, a body that does not decode, a body that cannot
  be read, and the salmon under another content type. \<open>one_fish\<close> is the store after
  the first of them on the empty store, at clock reading 123.
\<close>

definition post_salmon :: Request where
  "post_salmon = request ''POST'' ''/fishes'' ''/fishes'' json_header (salmon_body, None)"

definition post_broken :: Request where
  "post_broken = request ''POST'' ''/fishes'' ''/fishes'' json_header (''{'', None)"

definition post_unreadable :: Request where
  "post_unreadable = request ''POST'' ''/fishes'' ''/fishes'' plain_header ([], Some ''unexpected EOF'')"

definition post_plain :: Request where
  "post_plain = request ''POST'' ''/fishes'' ''/fishes'' plain_header (salmon_body, None)"

definition one_fish :: db where
  "one_fish = snd (fishes [] example_decoder 123 fresh post_salmon newFishesHander)"

text \<open>\<open>two_fish\<close>: the store after the salmon at clock reading 123 and the trout at 124.\<close>

definition two_fish :: db where
  "two_fish = snd (Inserts [(123, salmon), (124, trout)] newFishesHander)"

section \<open>Facts about the library calls\<close>

lemma digit_char_code: "d < 10 \<Longrightarrow> (of_char (digit_char d) :: nat) = 48 + d"
  by (simp add: digit_char_def)


lemma digits_chars:
  "c \<in> set (digits n) \<Longrightarrow> 48 \<le> (of_char c :: nat) \<and> (of_char c :: nat) \<le> 57"
proof (induction n rule: digits.induct)
  case (1 n)
  from "1.prems" have "c \<in> set (if n < 10 then [digit_char n]
      else digits (n div 10) @ [digit_char (n mod 10)])"
    by (subst (asm) digits.simps) simp
  then consider "n < 10" "c = digit_char n"
    | "\<not> n < 10" "c \<in> set (digits (n div 10))"
    | "\<not> n < 10" "c = digit_char (n mod 10)"
    by (auto split: if_splits)
  then show ?case
  proof cases
    case 1
    then show ?thesis by (simp add: digit_char_code)
  next
    case 2
    then show ?thesis using "1.IH" by simp
  next
    case 3
    then show ?thesis by (simp add: digit_char_code)
  qed
qed

lemma dval_snoc: "dval (s @ [c]) = 10 * dval s + (of_char c - 48)"
  by (simp add: dval_def)

lemma dval_digits: "dval (digits n) = n"
proof (induction n rule: digits.induct)
  case (1 n)
  show ?case
  proof (cases "n < 10")
    case True
    then show ?thesis
      by (subst digits.simps) (simp add: dval_def digit_char_code)
  next
    case False
    then have "dval (digits (n div 10)) = n div 10"
      using 1 by simp
    with False show ?thesis
      by (subst digits.simps) (simp add: dval_snoc digit_char_code)
  qed
qed

lemma digits_inj: "digits a = digits b \<Longrightarrow> a = b"
  by (metis dval_digits)

lemma minus_not_digit: "CHR ''-'' \<notin> set (digits n)"
  using digits_chars [of "CHR ''-''" n] by auto


lemma Sprintf_d_chars:
  "c \<in> set (Sprintf_d n) \<Longrightarrow> c = CHR ''-'' \<or> (48 \<le> (of_char c :: nat) \<and> (of_char c :: nat) \<le> 57)"
  by (auto simp: Sprintf_d_def dest: digits_chars split: if_splits)

lemma Sprintf_d_inj: "Sprintf_d a = Sprintf_d b \<Longrightarrow> a = b"
proof -
  assume eq: "Sprintf_d a = Sprintf_d b"
  have neg_pos: False if "x < 0" "\<not> y < 0" "Sprintf_d x = Sprintf_d y" for x y
  proof -
    from that have "CHR ''-'' # digits (nat (- x)) = digits (nat y)"
      by (simp add: Sprintf_d_def)
    then have "CHR ''-'' \<in> set (digits (nat y))"
      by (metis list.set_intros(1))
    then show False by (simp add: minus_not_digit)
  qed
  show "a = b"
  proof (cases "a < 0"; cases "b < 0")
    assume "a < 0" "b < 0"
    with eq have "nat (- a) = nat (- b)"
      by (simp add: Sprintf_d_def digits_inj)
    with \<open>a < 0\<close> \<open>b < 0\<close> show ?thesis by simp
  next
    assume "a < 0" "\<not> b < 0"
    then show ?thesis using neg_pos eq by blast
  next
    assume "\<not> a < 0" "b < 0"
    then show ?thesis using neg_pos [of b a] eq by simp
  next
    assume "\<not> a < 0" "\<not> b < 0"
    with eq have "nat a = nat b"
      by (simp add: Sprintf_d_def digits_inj)
    with \<open>\<not> a < 0\<close> \<open>\<not> b < 0\<close> show ?thesis by simp
  qed
qed

lemma clock_id_inj: "Sprintf_d (sint a) = Sprintf_d (sint b) \<Longrightarrow> a = b"
  by (auto dest: Sprintf_d_inj intro: signed_word_eqI)

lemma Split_nonempty: "Split s sep \<noteq> []"
  by (induction s) (auto split: list.splits)

lemma Split_no_sep: "sep \<notin> set s \<Longrightarrow> Split s sep = [s]"
  by (induction s) auto

lemma Split_append_sep: "Split (xs @ sep # ys) sep = Split xs sep @ Split ys sep"
proof (induction xs)
  case Nil
  show ?case by simp
next
  case (Cons c cs)
  obtain p ps where "Split cs sep = p # ps"
    using Split_nonempty [of cs sep] by (cases "Split cs sep") auto
  with Cons show ?case by simp
qed

lemma length_Split: "length (Split s sep) = Suc (length (filter (\<lambda>c. c = sep) s))"
  by (induction s) (auto split: list.splits simp: Split_nonempty)

lemma Split_fishes:
  "Split (''/fishes/'' @ rest) CHR ''/'' = [] # ''fishes'' # Split rest CHR ''/''"
proof -
  have "Split (''/fishes/'' @ rest) CHR ''/'' = Split ([] @ CHR ''/'' # (''fishes'' @ CHR ''/'' # rest)) CHR ''/''"
    by simp
  also have "\<dots> = Split [] CHR ''/'' @ Split (''fishes'' @ CHR ''/'' # rest) CHR ''/''"
    by (rule Split_append_sep)
  also have "Split (''fishes'' @ CHR ''/'' # rest) CHR ''/'' = Split ''fishes'' CHR ''/'' @ Split rest CHR ''/''"
    by (rule Split_append_sep)
  finally show ?thesis by simp
qed

lemma canonical_content_type: "CanonicalMIMEHeaderKey ''content-type'' = ''Content-Type''"
  by code_simp

lemma canonical_location: "CanonicalMIMEHeaderKey ''location'' = ''Location''"
  by code_simp

section \<open>The handlers and the store\<close>


lemma Insert_snd:
  "snd (Insert now fish db) = db(Sprintf_d (sint now) \<mapsto> fish\<lparr>ID := Sprintf_d (sint now)\<rparr>)"
  by (simp add: Insert_def Let_def)

lemma getAllFishes_store: "snd (getAllFishes keys w r db) = db"
  by (simp add: getAllFishes_def Let_def split: prod.splits)

lemma getRandomCoaster_store: "getRandomCoaster keys rnd w r db = Some (w', db') \<Longrightarrow> db' = db"
  by (auto simp: getRandomCoaster_def getRandomCoaster_locked_def split: pick.splits)

lemma getFish_store: "getFish keys rnd w r db = Some (w', db') \<Longrightarrow> db' = db"
  by (auto simp: getFish_def Let_def Marshal_Fish_def dest: getRandomCoaster_store
      split: if_splits option.splits)

lemma addNewFish_store:
  "snd (addNewFish Unmarshal now w r db) = db
   \<or> (\<exists>fish. snd (addNewFish Unmarshal now w r db) = snd (Insert now fish db))"
  by (auto simp: addNewFish_def Let_def split: prod.splits option.splits)

lemma fishes_store:
  "snd (fishes keys Unmarshal now w r db) = db
   \<or> (\<exists>fish. snd (fishes keys Unmarshal now w r db) = snd (Insert now fish db))"
  using addNewFish_store [of Unmarshal now w r db]
  by (auto simp: fishes_def getAllFishes_store)

lemma clock_keyed_empty: "clock_keyed newFishesHander"
  by (simp add: clock_keyed_def newFishesHander_def)

lemma clock_keyed_Insert: "clock_keyed db \<Longrightarrow> clock_keyed (snd (Insert now fish db))"
  by (auto simp: clock_keyed_def Insert_snd)

lemma reachable_clock_keyed: "reachable db \<Longrightarrow> clock_keyed db"
proof (induction rule: reachable.induct)
  case init
  show ?case by (rule clock_keyed_empty)
next
  case (fishes db keys Unmarshal now w r w' db')
  from fishes.hyps(3) have "db' = snd (fishes keys Unmarshal now w r db)"
    by simp
  with fishes.IH fishes_store [of keys Unmarshal now w r db] show ?case
    by (auto intro: clock_keyed_Insert)
next
  case (getFish db keys rnd w r w' db')
  from getFish.hyps(3) have "db' = db"
    by (rule getFish_store)
  with getFish.IH show ?case by simp
qed

lemma status_WriteHeader_fresh: "status (WriteHeader code fresh) = Some code"
  by (simp add: WriteHeader_def fresh_def)

lemma body_WriteHeader: "body (WriteHeader code w) = body w"
  by (simp add: WriteHeader_def)

lemma status_Write_WriteHeader_fresh: "status (Write b (WriteHeader code fresh)) = Some code"
  by (simp add: Write_def WriteHeader_def fresh_def)

lemma body_Write_WriteHeader_fresh: "body (Write b (WriteHeader code fresh)) = [b]"
  by (simp add: Write_def WriteHeader_def fresh_def)

lemma status_code_Write_WriteHeader_fresh:
  "status_code (Write b (WriteHeader code fresh)) = code"
  by (simp add: status_code_def status_Write_WriteHeader_fresh)

lemma Header_Get_missing:
  "h (CanonicalMIMEHeaderKey key) = None \<Longrightarrow> Header_Get h key = []"
  by (simp add: Header_Get_def)

lemma Inserts_Cons_fst:
  "fst (Inserts ((now, candidate) # calls) db) =
     candidate\<lparr>ID := Sprintf_d (sint now)\<rparr> # fst (Inserts calls (snd (Insert now candidate db)))"
  by (simp add: case_prod_beta Let_def Insert_def)

lemma Inserts_Cons_snd:
  "snd (Inserts ((now, candidate) # calls) db) =
     snd (Inserts calls (snd (Insert now candidate db)))"
  by (simp add: case_prod_beta Let_def)

lemma Inserts_returned:
  "fst (Inserts calls db) = map (\<lambda>(now, candidate). candidate\<lparr>ID := Sprintf_d (sint now)\<rparr>) calls"
proof (induction calls arbitrary: db)
  case Nil
  show ?case by simp
next
  case (Cons call calls)
  then show ?case
    by (cases call) (simp add: Inserts_Cons_fst del: Inserts.simps)
qed

lemma Inserts_frame:
  "k \<notin> (\<lambda>now. Sprintf_d (sint now)) ` fst ` set calls \<Longrightarrow> snd (Inserts calls db) k = db k"
proof (induction calls arbitrary: db)
  case Nil
  show ?case by simp
next
  case (Cons call calls)
  then show ?case
    by (cases call) (simp add: Inserts_Cons_snd Insert_snd del: Inserts.simps)
qed

lemma Inserts_dom:
  "dom (snd (Inserts calls db)) = dom db \<union> (\<lambda>now. Sprintf_d (sint now)) ` fst ` set calls"
proof (induction calls arbitrary: db)
  case Nil
  show ?case by simp
next
  case (Cons call calls)
  obtain now candidate where call: "call = (now, candidate)"
    by (cases call)
  have "dom (snd (Inserts (call # calls) db)) =
      dom (snd (Insert now candidate db)) \<union> (\<lambda>now. Sprintf_d (sint now)) ` fst ` set calls"
    using Cons.IH [of "snd (Insert now candidate db)"] by (simp only: call Inserts_Cons_snd)
  moreover have "dom (snd (Insert now candidate db)) = insert (Sprintf_d (sint now)) (dom db)"
    by (simp add: Insert_snd)
  ultimately show ?case by (simp add: call)
qed

lemma Inserts_lookup:
  "distinct (map fst calls) \<Longrightarrow> f \<in> set (fst (Inserts calls db))
   \<Longrightarrow> snd (Inserts calls db) (ID f) = Some f"
proof (induction calls arbitrary: db)
  case Nil
  then show ?case by simp
next
  case (Cons call calls)
  obtain now candidate where call: "call = (now, candidate)"
    by (cases call)
  let ?f0 = "candidate\<lparr>ID := Sprintf_d (sint now)\<rparr>"
  let ?db1 = "snd (Insert now candidate db)"
  have fst_eq: "fst (Inserts (call # calls) db) = ?f0 # fst (Inserts calls ?db1)"
    and snd_eq: "snd (Inserts (call # calls) db) = snd (Inserts calls ?db1)"
    unfolding call by (rule Inserts_Cons_fst, rule Inserts_Cons_snd)
  from Cons.prems(1) have dist: "distinct (map fst calls)" and new: "now \<notin> fst ` set calls"
    by (simp_all add: call)
  show ?case
  proof (cases "f \<in> set (fst (Inserts calls ?db1))")
    case True
    with Cons.IH [OF dist] show ?thesis by (simp add: snd_eq)
  next
    case False
    with Cons.prems(2) have f: "f = ?f0" by (simp add: fst_eq)
    have "Sprintf_d (sint now) \<notin> (\<lambda>t. Sprintf_d (sint t)) ` fst ` set calls"
      using new by (auto dest: clock_id_inj)
    then have "snd (Inserts calls ?db1) (Sprintf_d (sint now)) = ?db1 (Sprintf_d (sint now))"
      by (rule Inserts_frame)
    then show ?thesis by (simp add: snd_eq f Insert_snd)
  qed
qed

lemma elems_append_slice: "elems (append_slice s x) = elems s @ [x]"
  by (simp add: elems_def append_slice_def split: option.splits)

lemma elems_fold_append:
  "elems (fold (\<lambda>k fishes. case db k of None \<Rightarrow> fishes | Some fish \<Rightarrow> append_slice fishes fish)
      keys acc) = elems acc @ List.map_filter db keys"
  by (induction keys arbitrary: acc)
     (auto simp: map_filter_simps elems_append_slice split: option.splits)

lemma elems_ListAll: "elems (ListAll keys db) = List.map_filter db keys"
  by (simp add: ListAll_def elems_fold_append) (simp add: elems_def)

lemma set_map_filter: "set (List.map_filter db keys) = {f. \<exists>k \<in> set keys. db k = Some f}"
  by (induction keys) (auto simp: map_filter_simps split: option.splits)

lemma set_ListAll: "range_order db keys \<Longrightarrow> set (elems (ListAll keys db)) = ran db"
  by (auto simp: elems_ListAll set_map_filter range_order_def ran_def)

lemma ran_Inserts:
  assumes "distinct (map fst calls)"
  shows "ran (snd (Inserts calls newFishesHander)) = set (fst (Inserts calls newFishesHander))"
proof (intro set_eqI iffI)
  fix f
  assume "f \<in> ran (snd (Inserts calls newFishesHander))"
  then obtain k where k: "snd (Inserts calls newFishesHander) k = Some f"
    by (auto simp: ran_def)
  then have "k \<in> dom (snd (Inserts calls newFishesHander))"
    by auto
  then have "k \<in> (\<lambda>now. Sprintf_d (sint now)) ` fst ` set calls"
    by (simp add: Inserts_dom newFishesHander_def)
  then obtain g where g: "g \<in> set (fst (Inserts calls newFishesHander))" and "ID g = k"
    by (auto simp: Inserts_returned image_iff split: prod.splits) force
  with Inserts_lookup [OF assms g] k show "f \<in> set (fst (Inserts calls newFishesHander))"
    by simp
next
  fix f
  assume "f \<in> set (fst (Inserts calls newFishesHander))"
  then have "snd (Inserts calls newFishesHander) (ID f) = Some f"
    by (rule Inserts_lookup [OF assms])
  then show "f \<in> ran (snd (Inserts calls newFishesHander))"
    by (auto simp: ran_def)
qed

lemma fill_ids_in_range:
  "i + length keys \<le> length ids \<Longrightarrow>
     fill_ids ids i keys = Some (take i ids @ keys @ drop (i + length keys) ids)"
proof (induction keys arbitrary: ids i)
  case Nil
  show ?case by simp
next
  case (Cons k ks)
  from Cons.prems have i: "i < length ids" and rest: "Suc i + length ks \<le> length (ids[i := k])"
    by simp_all
  have "take (Suc i) (ids[i := k]) = take i ids @ [k]"
    using i by (simp add: take_Suc_conv_app_nth)
  moreover have "drop (Suc i + length ks) (ids[i := k]) = drop (Suc i + length ks) ids"
    by simp
  ultimately show ?case
    using i Cons.IH [OF rest] by simp
qed

lemma fill_ids_make_ids: "range_order db keys \<Longrightarrow> fill_ids (make_ids db) 0 keys = Some keys"
proof -
  assume o: "range_order db keys"
  then have "card (dom db) = length keys"
    by (metis distinct_card range_order_def)
  then show ?thesis
    by (simp add: make_ids_def fill_ids_in_range)
qed

lemma PickRandom_sequential:
  "range_order db keys \<Longrightarrow>
     PickRandom (make_ids db) keys rnd =
       (if keys = [] then Empty
        else if length keys = 1 then Picked (keys ! 0)
        else Picked (keys ! (rnd mod length keys)))"
  by (simp add: PickRandom_def fill_ids_make_ids)

lemma PickRandom_member:
  assumes "range_order db keys" and "PickRandom (make_ids db) keys rnd = Picked i"
  shows "i \<in> dom db"
proof -
  from assms have ne: "keys \<noteq> []" and i: "i = keys ! 0 \<or> i = keys ! (rnd mod length keys)"
    by (auto simp: PickRandom_sequential split: if_splits)
  then have "i \<in> set keys"
    by (auto simp: nth_mem)
  with assms(1) show ?thesis by (simp add: range_order_def)
qed

lemma distinct_singleton: "distinct xs \<Longrightarrow> set xs = {i} \<Longrightarrow> xs = [i]"
proof -
  assume d: "distinct xs" and s: "set xs = {i}"
  then have "length xs = 1"
    by (metis distinct_card is_singletonI is_singleton_altdef)
  then obtain x where "xs = [x]"
    by (cases xs) auto
  with s show ?thesis by simp
qed

lemma Split_random: "Split ''/fishes/random'' CHR ''/'' = ['''', ''fishes'', ''random'']"
  by simp

lemma getFish_random:
  "URL_String (URL r) = ''/fishes/random'' \<Longrightarrow>
     getFish keys rnd w r db = getRandomCoaster keys rnd w r db"
  by (simp add: getFish_def)

lemma redirect_to_sent:
  "status (redirect_to target) = Some StatusFound"
  "sent_header (redirect_to target) ''Location'' = Some [''/fishes/'' @ target]"
  "body (redirect_to target) = []"
  by (simp_all add: redirect_to_def WriteHeader_def Add_def Header_Add_def fresh_def
      canonical_location)

lemma Split_three: "length (Split (''/fishes/'' @ seg) CHR ''/'') = 3 \<longleftrightarrow> CHR ''/'' \<notin> set seg"
  by (auto simp: Split_fishes length_Split filter_empty_conv)


lemma clock_key_chars:
  assumes "clock_keyed db" and "db k = Some f" and "c \<in> set k"
  shows "c = CHR ''-'' \<or> (48 \<le> (of_char c :: nat) \<and> (of_char c :: nat) \<le> 57)"
proof -
  from assms(1,2) obtain t :: "64 word" where "k = Sprintf_d (sint t)"
    by (auto simp: clock_keyed_def)
  with assms(3) show ?thesis
    by (auto dest: Sprintf_d_chars)
qed

lemma clock_key_no_slash: "clock_keyed db \<Longrightarrow> db k = Some f \<Longrightarrow> CHR ''/'' \<notin> set k"
  by (auto dest: clock_key_chars)

lemma clock_key_no_question: "clock_keyed db \<Longrightarrow> db k = Some f \<Longrightarrow> CHR ''?'' \<notin> set k"
  by (auto dest: clock_key_chars)

lemma clock_key_not_random: "clock_keyed db \<Longrightarrow> db k = Some f \<Longrightarrow> k \<noteq> ''random''"
  using clock_key_chars [of db k f "CHR ''r''"] by auto

lemma found_fish_sent:
  "status (found_fish f) = Some StatusOK"
  "sent_header (found_fish f) ''Content-Type'' = Some [''application/json'']"
  "body (found_fish f) = [JSON (encode_Fish f)]"
  by (simp_all add: found_fish_def Write_def WriteHeader_def Add_def Header_Add_def fresh_def
      canonical_content_type)

lemma getFish_segment:
  assumes "URL_String (URL r) = ''/fishes/'' @ seg" and "CHR ''/'' \<notin> set seg"
    and "seg \<noteq> ''random''"
  shows "getFish keys rnd fresh r db =
     (case db seg of None \<Rightarrow> Some (WriteHeader StatusNotFound fresh, db)
      | Some f \<Rightarrow> Some (found_fish f, db))"
proof -
  have "Split (URL_String (URL r)) CHR ''/'' = ['''', ''fishes'', seg]"
    unfolding assms(1) Split_fishes Split_no_sep [OF assms(2)] by (rule refl)
  with assms(3) show ?thesis
    by (simp add: getFish_def Get_def Marshal_Fish_def found_fish_def split: option.splits)
qed

lemma getFish_more_segments:
  assumes "URL_String (URL r) = ''/fishes/'' @ seg" and "CHR ''/'' \<in> set seg"
  shows "getFish keys rnd w r db = Some (WriteHeader StatusNotFound w, db)"
proof -
  have "length (Split (URL_String (URL r)) CHR ''/'') \<noteq> 3"
    unfolding assms(1) Split_three using assms(2) by blast
  then show ?thesis by (simp add: getFish_def)
qed

lemma clock_keyed_Inserts: "clock_keyed db \<Longrightarrow> clock_keyed (snd (Inserts calls db))"
proof (induction calls arbitrary: db)
  case Nil
  then show ?case by simp
next
  case (Cons call calls)
  obtain now candidate where call: "call = (now, candidate)"
    by (cases call)
  from Cons.prems have "clock_keyed (snd (Insert now candidate db))"
    by (rule clock_keyed_Insert)
  then have "clock_keyed (snd (Inserts calls (snd (Insert now candidate db))))"
    by (rule Cons.IH)
  then show ?case
    by (simp only: call Inserts_Cons_snd)
qed

lemma Split_more_than_three:
  "CHR ''/'' \<in> set seg \<Longrightarrow> 3 < length (Split (''/fishes/'' @ seg) CHR ''/'')"
proof -
  assume "CHR ''/'' \<in> set seg"
  then have "filter (\<lambda>c. c = CHR ''/'') seg \<noteq> []"
    by (simp add: filter_empty_conv)
  then have "0 < length (filter (\<lambda>c. c = CHR ''/'') seg)"
    by simp
  then show ?thesis
    by (simp add: Split_fishes length_Split del: Split.simps)
qed

section \<open>The examples\<close>

lemma Sprintf_d_123: "Sprintf_d 123 = ''123''"
  by code_simp

lemma json_header_Get: "Header_Get json_header ''content-type'' = ''application/json''"
  by (simp add: Header_Get_def json_header_def canonical_content_type)

lemma plain_header_Get: "Header_Get plain_header ''content-type'' = ''text/plain''"
  by (simp add: Header_Get_def plain_header_def canonical_content_type)

lemma one_fish_eq: "one_fish = [''123'' \<mapsto> salmon\<lparr>ID := ''123''\<rparr>]"
  by (simp add: one_fish_def fishes_def post_salmon_def request_def addNewFish_def
      json_header_Get example_decoder_def salmon_body_def Insert_snd Sprintf_d_123
      newFishesHander_def)

lemma range_order_empty: "range_order newFishesHander []"
  by (simp add: range_order_def newFishesHander_def)

lemma reachable_one_fish: "reachable one_fish"
proof -
  have "fishes [] example_decoder 123 fresh post_salmon newFishesHander
      = (fst (fishes [] example_decoder 123 fresh post_salmon newFishesHander), one_fish)"
    by (simp add: one_fish_def)
  with reachable.init range_order_empty show ?thesis
    by (rule reachable.fishes)
qed

lemma Sprintf_d_124: "Sprintf_d 124 = ''124''"
  by code_simp


lemma two_fish_eq:
  "two_fish = [''123'' \<mapsto> salmon\<lparr>ID := ''123''\<rparr>, ''124'' \<mapsto> trout\<lparr>ID := ''124''\<rparr>]"
  by (simp add: two_fish_def Insert_def Let_def Sprintf_d_123 Sprintf_d_124 newFishesHander_def)

lemma Inserts_two_fish:
  "Inserts [(123, salmon), (124, trout)] newFishesHander =
     ([salmon\<lparr>ID := ''123''\<rparr>, trout\<lparr>ID := ''124''\<rparr>], two_fish)"
  by (simp add: two_fish_eq Insert_def Let_def Sprintf_d_123 Sprintf_d_124 newFishesHander_def)


lemma status_code_fresh: "status_code fresh = StatusOK"
  by (simp add: status_code_def fresh_def)

lemma range_order_one_fish: "range_order one_fish [''123'']"
  by (simp add: range_order_def one_fish_eq)

lemma URL_String_get_request: "URL_String (URL (get_request p s)) = s"
  by (simp add: get_request_def request_def)

lemma Path_get_request: "Path (URL (get_request p s)) = p"
  by (simp add: get_request_def request_def)

section \<open>The claims\<close>

text \<open>
  C1. A \<^verbatim>\<open>POST /fishes\<close> whose body does not decode is answered 400 with the decode
  error, and the claim is that the store is then left as it was. The handler does
  not return after writing the 400 (line 136): it goes on to line 138 and stores the
  record the decoder left, under a new identifier. For every such request the store
  afterwards has the key of the clock reading, whatever it held before.
\<close>

theorem decode_failure_is_inserted:
  assumes "Method r = ''POST''" and "Body r = (b, None)"
    and "Header_Get (Header r) ''content-type'' = ''application/json''"
    and "Unmarshal b = (Some e, fish)"
  shows "fishes keys Unmarshal now fresh r db =
      (Write (Text e) (WriteHeader StatusBadRequest fresh),
       db(Sprintf_d (sint now) \<mapsto> fish\<lparr>ID := Sprintf_d (sint now)\<rparr>))
    \<and> status_code (fst (fishes keys Unmarshal now fresh r db)) = StatusBadRequest
    \<and> Sprintf_d (sint now) \<in> dom (snd (fishes keys Unmarshal now fresh r db))"
  using assms
  by (simp add: fishes_def addNewFish_def Insert_snd status_code_Write_WriteHeader_fresh)

theorem decode_failure_is_inserted_witness:
  "Method post_broken = ''POST'' \<and> Body post_broken = (''{'', None)
   \<and> example_decoder ''{'' = (Some ''unexpected end of JSON input'', zero_Fish)
   \<and> status_code (fst (fishes [] example_decoder 123 fresh post_broken newFishesHander)) = 400
   \<and> body (fst (fishes [] example_decoder 123 fresh post_broken newFishesHander))
       = [Text ''unexpected end of JSON input'']
   \<and> snd (fishes [] example_decoder 123 fresh post_broken newFishesHander)
       = [''123'' \<mapsto> zero_Fish\<lparr>ID := ''123''\<rparr>]
   \<and> snd (fishes [] example_decoder 123 fresh post_broken newFishesHander) \<noteq> newFishesHander"
proof -
  have m: "Method post_broken = ''POST''" and b: "Body post_broken = (''{'', None)"
    and h: "Header_Get (Header post_broken) ''content-type'' = ''application/json''"
    by (simp_all add: post_broken_def request_def json_header_Get)
  have d: "example_decoder ''{'' = (Some ''unexpected end of JSON input'', zero_Fish)"
    by (simp add: example_decoder_def salmon_body_def)
  have ne: "[''123'' \<mapsto> zero_Fish\<lparr>ID := ''123''\<rparr>] \<noteq> newFishesHander"
    by (simp add: newFishesHander_def)
  from decode_failure_is_inserted [where Unmarshal = example_decoder and keys = "[]"
      and now = 123 and db = newFishesHander, OF m b h d] m b d ne
  show ?thesis
    by (simp add: Sprintf_d_123 newFishesHander_def body_Write_WriteHeader_fresh
        status_code_Write_WriteHeader_fresh)
qed




text \<open>
  C3. \<^verbatim>\<open>GET /fishes\<close> on the store with no record: the claim is status 200 with the
  empty JSON array. The slice \<^verbatim>\<open>fishes\<close> of line 34 is nil and the loop appends
  nothing to it, so what \<^verbatim>\<open>json.Marshal\<close> encodes is the nil slice: the body is
  \<^verbatim>\<open>null\<close>, with status 200.
\<close>

theorem empty_store_lists_null:
  "fishes [] Unmarshal now fresh (r\<lparr>Method := ''GET''\<rparr>) newFishesHander =
     (Write (JSON JNull) (WriteHeader StatusOK (Add ''content-type'' ''application/json'' fresh)),
      newFishesHander)
   \<and> status_code (fst (fishes [] Unmarshal now fresh (r\<lparr>Method := ''GET''\<rparr>) newFishesHander)) = StatusOK
   \<and> body (fst (fishes [] Unmarshal now fresh (r\<lparr>Method := ''GET''\<rparr>) newFishesHander)) = [JSON JNull]
   \<and> JNull \<noteq> JArray []"
  by (simp add: fishes_def getAllFishes_def ListAll_def Marshal_Fishes_def Write_def
      WriteHeader_def Add_def fresh_def status_code_def)

text \<open>
  C4. The claim: after any sequence of inserts from the empty store, ListAll returns
  the set of the records the inserts returned, and Get finds each of them under its
  identifier. Two inserts at the same clock reading share the identifier: the
  second record replaces the first in the map, so the list holds one record where two
  were returned, and Get with the identifier returned for the salmon yields the trout.
\<close>

theorem same_clock_reading_loses_a_record:
  "Inserts [(123, salmon), (123, trout)] newFishesHander =
     ([salmon\<lparr>ID := ''123''\<rparr>, trout\<lparr>ID := ''123''\<rparr>], [''123'' \<mapsto> trout\<lparr>ID := ''123''\<rparr>])
   \<and> range_order (snd (Inserts [(123, salmon), (123, trout)] newFishesHander)) [''123'']
   \<and> elems (ListAll [''123''] (snd (Inserts [(123, salmon), (123, trout)] newFishesHander)))
       = [trout\<lparr>ID := ''123''\<rparr>]
   \<and> set (elems (ListAll [''123''] (snd (Inserts [(123, salmon), (123, trout)] newFishesHander))))
       \<noteq> set (fst (Inserts [(123, salmon), (123, trout)] newFishesHander))
   \<and> Get ''123'' (snd (Inserts [(123, salmon), (123, trout)] newFishesHander))
       \<noteq> Some (salmon\<lparr>ID := ''123''\<rparr>)"
  by (simp add: Insert_def Let_def Sprintf_d_123 newFishesHander_def range_order_def ListAll_def
      append_slice_def elems_def Get_def salmon_def trout_def)

text \<open>
  C4 as amended. After any sequence of inserts from the empty store whose clock
  readings are pairwise distinct, ListAll (in whatever order the map is ranged over)
  returns, as a set, the records the inserts returned, and Get with the identifier of
  each returned record yields that record, as does a request for \<^verbatim>\<open>/fishes/{id}\<close>.
  Every returned record is the candidate with its identifier replaced by the clock
  reading in decimal, whatever identifier the caller supplied.
\<close>

theorem inserts_listed_and_retrievable:
  assumes "distinct (map fst calls)" and "Inserts calls newFishesHander = (returned, db)"
    and "range_order db keys"
  shows "set (elems (ListAll keys db)) = set returned
    \<and> (\<forall>f \<in> set returned. Get (ID f) db = Some f)
    \<and> (\<forall>f \<in> set returned. \<forall>r. URL_String (URL r) = ''/fishes/'' @ ID f \<longrightarrow>
          getFish keys rnd fresh r db = Some (found_fish f, db))
    \<and> returned = map (\<lambda>(now, candidate). candidate\<lparr>ID := Sprintf_d (sint now)\<rparr>) calls"
proof -
  from assms(2) have r: "returned = fst (Inserts calls newFishesHander)"
    and d: "db = snd (Inserts calls newFishesHander)"
    by simp_all
  have "set (elems (ListAll keys db)) = ran db"
    using assms(3) by (rule set_ListAll)
  also have "\<dots> = set returned"
    unfolding r d using assms(1) by (rule ran_Inserts)
  finally have listed: "set (elems (ListAll keys db)) = set returned" .
  have stored: "db (ID f) = Some f" if "f \<in> set returned" for f
    using that Inserts_lookup [OF assms(1), of f newFishesHander] by (simp add: r d)
  have keyed: "clock_keyed db"
    unfolding d using clock_keyed_empty by (rule clock_keyed_Inserts)
  have served: "getFish keys rnd fresh r db = Some (found_fish f, db)"
    if "f \<in> set returned" and url: "URL_String (URL r) = ''/fishes/'' @ ID f" for f r
  proof -
    from that(1) have s: "db (ID f) = Some f" by (rule stored)
    from url clock_key_no_slash [OF keyed s] clock_key_not_random [OF keyed s]
    have "getFish keys rnd fresh r db =
        (case db (ID f) of None \<Rightarrow> Some (WriteHeader StatusNotFound fresh, db)
         | Some f \<Rightarrow> Some (found_fish f, db))"
      by (rule getFish_segment)
    with s show ?thesis by simp
  qed
  from listed stored served show ?thesis
    by (simp add: r Inserts_returned Get_def)
qed

theorem inserts_listed_and_retrievable_witness:
  "distinct (map fst [(123 :: 64 word, salmon), (124, trout)])
   \<and> Inserts [(123, salmon), (124, trout)] newFishesHander =
       ([salmon\<lparr>ID := ''123''\<rparr>, trout\<lparr>ID := ''124''\<rparr>], two_fish)
   \<and> range_order two_fish [''124'', ''123'']
   \<and> set (elems (ListAll [''124'', ''123''] two_fish))
       = {salmon\<lparr>ID := ''123''\<rparr>, trout\<lparr>ID := ''124''\<rparr>}
   \<and> Get ''123'' two_fish = Some (salmon\<lparr>ID := ''123''\<rparr>)
   \<and> Get ''124'' two_fish = Some (trout\<lparr>ID := ''124''\<rparr>)
   \<and> getFish [''124'', ''123''] 7 fresh (get_request ''/fishes/124'' ''/fishes/124'') two_fish
       = Some (found_fish (trout\<lparr>ID := ''124''\<rparr>), two_fish)
   \<and> ID salmon = ''mine''"
proof -
  have d: "distinct (map fst [(123 :: 64 word, salmon), (124, trout)])"
    by simp
  have o: "range_order two_fish [''124'', ''123'']"
    by (auto simp: range_order_def two_fish_eq)
  have u: "URL_String (URL (get_request ''/fishes/124'' ''/fishes/124'')) = ''/fishes/124''"
    by (simp add: URL_String_get_request)
  from inserts_listed_and_retrievable [OF d Inserts_two_fish o, of 7] d Inserts_two_fish o u
  show ?thesis by (simp add: Sprintf_d_123 Sprintf_d_124 salmon_def trout_def del: Inserts.simps)
qed

text \<open>
  C5. The claim puts the check of the content type before the reading of the body,
  so that a request with a wrong content type whose body cannot be read is answered
  415. The handler reads the body first (line 114): \<open>post_unreadable\<close>, with content
  type \<^verbatim>\<open>text/plain\<close> and a failing read, is answered 500.
\<close>

theorem unreadable_body_answers_500:
  "Header_Get (Header post_unreadable) ''content-type'' \<noteq> ''application/json''
   \<and> status_code (fst (fishes [] example_decoder 123 fresh post_unreadable newFishesHander))
       = StatusInternalServerError
   \<and> status_code (fst (fishes [] example_decoder 123 fresh post_unreadable newFishesHander))
       \<noteq> StatusUnsupportedMediaType"
  by (simp add: post_unreadable_def request_def plain_header_Get fishes_def addNewFish_def
      status_code_Write_WriteHeader_fresh)

text \<open>
  C5 as amended. For every \<^verbatim>\<open>POST /fishes\<close> the body is read first, and a failure of
  that read is answered 500 with the error text, whatever the content type. Only when
  the body was read is the header checked: any value other than exactly
  \<^verbatim>\<open>application/json\<close>, the missing header included, is answered 415 with the
  explanatory text, whatever the body holds. The store is unchanged in both cases.
\<close>

theorem body_read_before_content_type:
  assumes "Method r = ''POST''"
  shows "(\<forall>b e. Body r = (b, Some e) \<longrightarrow>
            fishes keys Unmarshal now fresh r db =
              (Write (Text e) (WriteHeader StatusInternalServerError fresh), db)
            \<and> status_code (fst (fishes keys Unmarshal now fresh r db)) = StatusInternalServerError)
    \<and> (\<forall>b. Body r = (b, None) \<and> Header_Get (Header r) ''content-type'' \<noteq> ''application/json'' \<longrightarrow>
            fishes keys Unmarshal now fresh r db =
              (Write (Text (need_content_type (Header_Get (Header r) ''content-type'')))
                 (WriteHeader StatusUnsupportedMediaType fresh), db)
            \<and> status_code (fst (fishes keys Unmarshal now fresh r db)) = StatusUnsupportedMediaType)
    \<and> (Header r (CanonicalMIMEHeaderKey ''content-type'') = None \<longrightarrow>
          Header_Get (Header r) ''content-type'' \<noteq> ''application/json'')"
  using assms
  by (simp add: fishes_def addNewFish_def status_code_Write_WriteHeader_fresh Header_Get_missing)

theorem body_read_before_content_type_witness:
  "Method post_unreadable = ''POST'' \<and> Body post_unreadable = ([], Some ''unexpected EOF'')
   \<and> fishes [] example_decoder 123 fresh post_unreadable one_fish =
        (Write (Text ''unexpected EOF'') (WriteHeader StatusInternalServerError fresh), one_fish)
   \<and> Method post_plain = ''POST'' \<and> Body post_plain = (salmon_body, None)
   \<and> Header_Get (Header post_plain) ''content-type'' = ''text/plain''
   \<and> fishes [] example_decoder 123 fresh post_plain one_fish =
        (Write (Text (need_content_type ''text/plain''))
           (WriteHeader StatusUnsupportedMediaType fresh), one_fish)"
proof -
  have m1: "Method post_unreadable = ''POST''"
    and b1: "Body post_unreadable = ([], Some ''unexpected EOF'')"
    by (simp_all add: post_unreadable_def request_def)
  have m2: "Method post_plain = ''POST''" and b2: "Body post_plain = (salmon_body, None)"
    and h2: "Header_Get (Header post_plain) ''content-type'' = ''text/plain''"
    by (simp_all add: post_plain_def request_def plain_header_Get)
  from body_read_before_content_type [OF m1, of "[]" example_decoder 123 one_fish]
    body_read_before_content_type [OF m2, of "[]" example_decoder 123 one_fish]
    m1 b1 m2 b2 h2
  show ?thesis by simp
qed

text \<open>
  C6. \<^verbatim>\<open>GET /fishes/random\<close>, for every order in which the map is ranged over and
  every number the random source draws: on the store with no record the answer is
  404; on a store with exactly one record the target is that record's identifier;
  and whenever an identifier is picked, it is a key of the store and the answer is
  302 with the header \<^verbatim>\<open>Location: /fishes/{id}\<close> for that identifier. On a store
  with a record an identifier is always picked.
\<close>

theorem random_redirects_to_a_stored_identifier:
  assumes "URL_String (URL r) = ''/fishes/random''" and "range_order db keys"
  shows "(dom db = {} \<longrightarrow>
            getFish keys rnd fresh r db = Some (WriteHeader StatusNotFound fresh, db))
    \<and> (\<forall>i. dom db = {i} \<longrightarrow> getFish keys rnd fresh r db = Some (redirect_to i, db))
    \<and> (dom db \<noteq> {} \<longrightarrow> (\<exists>i. PickRandom (make_ids db) keys rnd = Picked i))
    \<and> (\<forall>i. PickRandom (make_ids db) keys rnd = Picked i \<longrightarrow>
            i \<in> dom db \<and> getFish keys rnd fresh r db = Some (redirect_to i, db)
            \<and> status (redirect_to i) = Some StatusFound
            \<and> sent_header (redirect_to i) ''Location'' = Some [''/fishes/'' @ i])
    \<and> status (WriteHeader StatusNotFound fresh) = Some StatusNotFound"
proof -
  have handler: "getFish keys rnd fresh r db =
      (case PickRandom (make_ids db) keys rnd of
         Panic \<Rightarrow> None
       | Empty \<Rightarrow> Some (WriteHeader StatusNotFound fresh, db)
       | Picked target \<Rightarrow> Some (redirect_to target, db))"
    by (simp add: getFish_random [OF assms(1)] getRandomCoaster_def
        getRandomCoaster_locked_def redirect_to_def split: pick.splits)
  have keys: "set keys = dom db" and dist: "distinct keys"
    using assms(2) by (simp_all add: range_order_def)
  have empty: "getFish keys rnd fresh r db = Some (WriteHeader StatusNotFound fresh, db)"
    if "dom db = {}"
  proof -
    from that keys have "keys = []" by simp
    with PickRandom_sequential [OF assms(2), of rnd]
    have "PickRandom (make_ids db) keys rnd = Empty"
      by simp
    then show ?thesis by (simp only: handler pick.case)
  qed
  have single: "getFish keys rnd fresh r db = Some (redirect_to i, db)" if "dom db = {i}" for i
  proof -
    from that keys dist have "keys = [i]"
      by (simp add: distinct_singleton)
    with PickRandom_sequential [OF assms(2), of rnd]
    have "PickRandom (make_ids db) keys rnd = Picked i"
      by simp
    then show ?thesis by (simp only: handler pick.case)
  qed
  have some: "\<exists>i. PickRandom (make_ids db) keys rnd = Picked i" if "dom db \<noteq> {}"
  proof -
    from that keys have "set keys \<noteq> {}" by simp
    then have "keys \<noteq> []" by (simp only: set_empty not_False_eq_True)
    with PickRandom_sequential [OF assms(2), of rnd] show ?thesis by simp
  qed
  have picked: "i \<in> dom db \<and> getFish keys rnd fresh r db = Some (redirect_to i, db)"
    if "PickRandom (make_ids db) keys rnd = Picked i" for i
    using that PickRandom_member [OF assms(2) that] by (simp add: handler)
  from empty single some picked show ?thesis
    by (simp add: redirect_to_sent status_WriteHeader_fresh)
qed

theorem random_redirects_to_a_stored_identifier_witness:
  "URL_String (URL (get_request ''/fishes/random'' ''/fishes/random'')) = ''/fishes/random''
   \<and> range_order newFishesHander [] \<and> dom newFishesHander = {}
   \<and> getFish [] 7 fresh (get_request ''/fishes/random'' ''/fishes/random'') newFishesHander
       = Some (WriteHeader StatusNotFound fresh, newFishesHander)
   \<and> range_order one_fish [''123''] \<and> dom one_fish = {''123''}
   \<and> getFish [''123''] 7 fresh (get_request ''/fishes/random'' ''/fishes/random'') one_fish
       = Some (redirect_to ''123'', one_fish)
   \<and> sent_header (redirect_to ''123'') ''Location'' = Some [''/fishes/123'']"
proof -
  have u: "URL_String (URL (get_request ''/fishes/random'' ''/fishes/random'')) = ''/fishes/random''"
    by (simp add: URL_String_get_request)
  have e: "dom newFishesHander = {}"
    by (simp add: newFishesHander_def)
  have s: "dom one_fish = {''123''}"
    by (simp add: one_fish_eq)
  from random_redirects_to_a_stored_identifier [OF u range_order_empty, of 7]
    random_redirects_to_a_stored_identifier [OF u range_order_one_fish, of 7]
    u e s range_order_empty range_order_one_fish
  show ?thesis by (simp add: redirect_to_sent)
qed

text \<open>
  C7. The claim segments the request path. The handler splits \<^verbatim>\<open>r.URL.String()\<close>
  (line 80), which holds the query too: for \<^verbatim>\<open>GET /fishes/random?x=1\<close> the path splits
  into the three components with \<^verbatim>\<open>random\<close> last, yet the request is not handled by
  the random selection (which would answer 302 on this store) but looked up as the
  identifier \<^verbatim>\<open>random?x=1\<close> and answered 404.
\<close>

theorem query_string_is_not_intercepted:
  "Split (Path (URL (get_request ''/fishes/random'' ''/fishes/random?x=1''))) CHR ''/''
     = ['''', ''fishes'', ''random'']
   \<and> getFish [''123''] 7 fresh (get_request ''/fishes/random'' ''/fishes/random?x=1'') one_fish
       = Some (WriteHeader StatusNotFound fresh, one_fish)
   \<and> getRandomCoaster [''123''] 7 fresh (get_request ''/fishes/random'' ''/fishes/random?x=1'')
         one_fish
       = Some (redirect_to ''123'', one_fish)
   \<and> status (WriteHeader StatusNotFound fresh) = Some StatusNotFound
   \<and> status (redirect_to ''123'') = Some StatusFound"
proof -
  have "PickRandom (make_ids one_fish) [''123''] 7 = Picked ''123''"
    by (simp add: PickRandom_sequential [OF range_order_one_fish])
  then have "getRandomCoaster [''123''] 7 fresh
      (get_request ''/fishes/random'' ''/fishes/random?x=1'') one_fish
      = Some (redirect_to ''123'', one_fish)"
    by (simp add: getRandomCoaster_def getRandomCoaster_locked_def redirect_to_def)
  moreover have "getFish [''123''] 7 fresh
      (get_request ''/fishes/random'' ''/fishes/random?x=1'') one_fish
      = Some (WriteHeader StatusNotFound fresh, one_fish)"
    by (simp add: getFish_def URL_String_get_request Get_def one_fish_eq)
  moreover have "Split (Path (URL (get_request ''/fishes/random'' ''/fishes/random?x=1''))) CHR ''/''
      = ['''', ''fishes'', ''random'']"
    by (simp add: Path_get_request)
  ultimately show ?thesis
    by (simp add: redirect_to_sent status_WriteHeader_fresh)
qed

text \<open>
  C7 as amended. For every request to the \<^verbatim>\<open>/fishes/\<close> subtree the handler splits, on
  \<^verbatim>\<open>/\<close>, the URL string that \<^verbatim>\<open>r.URL.String()\<close> returns for the request, not the
  request path. Any count of components other than three is answered 404, the same
  for every store; when there are three and the third is \<^verbatim>\<open>random\<close> the request is
  handled by the random selection, before any lookup. A URL string \<^verbatim>\<open>/fishes/\<close>
  followed by a segment has the three components (empty, \<^verbatim>\<open>fishes\<close>, the segment)
  exactly when the segment holds no \<^verbatim>\<open>/\<close>.
\<close>

theorem url_string_segmentation:
  "(length (Split (URL_String (URL r)) CHR ''/'') \<noteq> 3 \<longrightarrow>
      getFish keys rnd w r db = Some (WriteHeader StatusNotFound w, db))
   \<and> (length (Split (URL_String (URL r)) CHR ''/'') = 3
        \<and> Split (URL_String (URL r)) CHR ''/'' ! 2 = ''random'' \<longrightarrow>
      getFish keys rnd w r db = getRandomCoaster keys rnd w r db)
   \<and> (\<forall>seg. URL_String (URL r) = ''/fishes/'' @ seg \<and> CHR ''/'' \<notin> set seg \<longrightarrow>
      Split (URL_String (URL r)) CHR ''/'' = ['''', ''fishes'', seg])
   \<and> (\<forall>seg. URL_String (URL r) = ''/fishes/'' @ seg \<and> CHR ''/'' \<in> set seg \<longrightarrow>
      length (Split (URL_String (URL r)) CHR ''/'') \<noteq> 3)"
proof -
  have malformed: "length (Split (URL_String (URL r)) CHR ''/'') \<noteq> 3 \<longrightarrow>
      getFish keys rnd w r db = Some (WriteHeader StatusNotFound w, db)"
    by (simp add: getFish_def)
  have reserved: "length (Split (URL_String (URL r)) CHR ''/'') = 3
        \<and> Split (URL_String (URL r)) CHR ''/'' ! 2 = ''random'' \<longrightarrow>
      getFish keys rnd w r db = getRandomCoaster keys rnd w r db"
    by (simp add: getFish_def)
  have one_segment: "Split (URL_String (URL r)) CHR ''/'' = ['''', ''fishes'', seg]"
    if "URL_String (URL r) = ''/fishes/'' @ seg \<and> CHR ''/'' \<notin> set seg" for seg
  proof -
    from that have e: "URL_String (URL r) = ''/fishes/'' @ seg" and n: "CHR ''/'' \<notin> set seg"
      by blast+
    show ?thesis
      unfolding e Split_fishes Split_no_sep [OF n] by (rule refl)
  qed
  have more_segments: "length (Split (URL_String (URL r)) CHR ''/'') \<noteq> 3"
    if "URL_String (URL r) = ''/fishes/'' @ seg \<and> CHR ''/'' \<in> set seg" for seg
  proof -
    from that have e: "URL_String (URL r) = ''/fishes/'' @ seg" and n: "CHR ''/'' \<in> set seg"
      by blast+
    show ?thesis
      unfolding e Split_three using n by blast
  qed
  from malformed reserved one_segment more_segments show ?thesis
    by blast
qed

theorem url_string_segmentation_witness:
  "length (Split (URL_String (URL (get_request ''/fishes/1/2'' ''/fishes/1/2''))) CHR ''/'') = 4
   \<and> getFish [''123''] 7 fresh (get_request ''/fishes/1/2'' ''/fishes/1/2'') one_fish
       = Some (WriteHeader StatusNotFound fresh, one_fish)
   \<and> Split (URL_String (URL (get_request ''/fishes/random'' ''/fishes/random''))) CHR ''/''
       = ['''', ''fishes'', ''random'']
   \<and> getFish [''123''] 7 fresh (get_request ''/fishes/random'' ''/fishes/random'') one_fish
       = getRandomCoaster [''123''] 7 fresh (get_request ''/fishes/random'' ''/fishes/random'')
           one_fish
   \<and> URL_String (URL (get_request ''/fishes/123'' ''/fishes/123?x=1'')) = ''/fishes/'' @ ''123?x=1''
   \<and> Split (URL_String (URL (get_request ''/fishes/123'' ''/fishes/123?x=1''))) CHR ''/''
       = ['''', ''fishes'', ''123?x=1'']
   \<and> URL_String (URL (get_request ''/fishes/123'' ''/fishes/123?a/b'')) = ''/fishes/'' @ ''123?a/b''
   \<and> length (Split (URL_String (URL (get_request ''/fishes/123'' ''/fishes/123?a/b''))) CHR ''/'')
       \<noteq> 3"
proof -
  have four: "length (Split (URL_String (URL (get_request ''/fishes/1/2'' ''/fishes/1/2''))) CHR ''/'')
      = 4"
    and three: "Split (URL_String (URL (get_request ''/fishes/random'' ''/fishes/random''))) CHR ''/''
       = ['''', ''fishes'', ''random'']"
    and one: "URL_String (URL (get_request ''/fishes/123'' ''/fishes/123?x=1''))
       = ''/fishes/'' @ ''123?x=1''"
      "CHR ''/'' \<notin> set ''123?x=1''"
    and more: "URL_String (URL (get_request ''/fishes/123'' ''/fishes/123?a/b''))
       = ''/fishes/'' @ ''123?a/b''"
      "CHR ''/'' \<in> set ''123?a/b''"
    by (simp_all add: URL_String_get_request)
  from url_string_segmentation [of "get_request ''/fishes/1/2'' ''/fishes/1/2''"
      "[''123'']" 7 fresh one_fish]
    url_string_segmentation [of "get_request ''/fishes/random'' ''/fishes/random''"
      "[''123'']" 7 fresh one_fish]
    url_string_segmentation [of "get_request ''/fishes/123'' ''/fishes/123?x=1''"
      "[''123'']" 7 fresh one_fish]
    url_string_segmentation [of "get_request ''/fishes/123'' ''/fishes/123?a/b''"
      "[''123'']" 7 fresh one_fish]
    four three one more
  show ?thesis by simp
qed

text \<open>
  C8. In every store the server can reach from the empty store by requests (the
  operations ListAll, Get, PickRandom and Insert), every key of the map is the
  identifier of the record stored under it.
\<close>

theorem key_is_identifier: "reachable db \<Longrightarrow> db k = Some f \<Longrightarrow> ID f = k"
  using reachable_clock_keyed [of db] by (simp add: clock_keyed_def)

theorem key_is_identifier_witness:
  "reachable one_fish \<and> one_fish ''123'' = Some (salmon\<lparr>ID := ''123''\<rparr>)
   \<and> ID (the (one_fish ''123'')) = ''123''"
proof -
  have stored: "one_fish ''123'' = Some (salmon\<lparr>ID := ''123''\<rparr>)"
    by (simp add: one_fish_eq)
  from key_is_identifier [OF reachable_one_fish stored] reachable_one_fish stored
  show ?thesis by simp
qed

text \<open>
  C9. The claim: every operation reads the map, its size included, while it holds
  the lock. \<^verbatim>\<open>getRandomCoaster\<close> reads \<^verbatim>\<open>len(h.db)\<close> at line 54 and takes the lock at
  line 56, so another request can change the map between the two. Here the size is
  read on the empty store, a \<^verbatim>\<open>POST\<close> stores a record (the store \<open>one_fish\<close>), and the
  loop under the lock then ranges over one key with a slice of length 0: the size
  does not fit the keys the loop sees, and \<^verbatim>\<open>ids[0] = id\<close> is out of range, a panic
  (\<open>None\<close>), whatever the random source draws.
\<close>

theorem size_read_before_the_lock:
  "make_ids newFishesHander = []
   \<and> range_order one_fish [''123'']
   \<and> getRandomCoaster_locked (make_ids newFishesHander) [''123''] rnd fresh one_fish = None"
  by (simp add: make_ids_def newFishesHander_def range_order_one_fish
      getRandomCoaster_locked_def PickRandom_def)

text \<open>
  C10. The claim: for a stored identifier \<open>i\<close>, a request for \<^verbatim>\<open>/fishes/i\<close> followed by
  a query does not find the record, because the query suffix becomes part of the
  segment that is looked up. With a \<^verbatim>\<open>/\<close> in the query that is not what happens: the
  URL string \<^verbatim>\<open>/fishes/123?a/b\<close> has four components, none of them the identifier
  with the query appended, and the request is answered 404 by the check of the
  count (lines 82 to 85), before any lookup.
\<close>

theorem query_with_slash_is_not_looked_up:
  "URL_String (URL (get_request ''/fishes/123'' ''/fishes/123?a/b''))
     = ''/fishes/'' @ ''123'' @ CHR ''?'' # ''a/b''
   \<and> one_fish ''123'' = Some (salmon\<lparr>ID := ''123''\<rparr>)
   \<and> Split (URL_String (URL (get_request ''/fishes/123'' ''/fishes/123?a/b''))) CHR ''/''
       = ['''', ''fishes'', ''123?a'', ''b'']
   \<and> Split (URL_String (URL (get_request ''/fishes/123'' ''/fishes/123?a/b''))) CHR ''/''
       \<noteq> ['''', ''fishes'', ''123'' @ CHR ''?'' # ''a/b'']
   \<and> length (Split (URL_String (URL (get_request ''/fishes/123'' ''/fishes/123?a/b''))) CHR ''/'')
       \<noteq> 3
   \<and> getFish [''123''] 7 fresh (get_request ''/fishes/123'' ''/fishes/123?a/b'') one_fish
       = Some (WriteHeader StatusNotFound fresh, one_fish)"
  by (simp add: URL_String_get_request one_fish_eq getFish_def)

text \<open>
  C10 as amended. The handler of \<^verbatim>\<open>/fishes/\<close> segments the URL string, not the path
  alone. For every store the server can reach and every identifier \<open>i\<close> stored in it,
  a request whose URL string is \<^verbatim>\<open>/fishes/i\<close> followed by \<^verbatim>\<open>?\<close> and a query is answered
  404, while a request whose URL string is \<^verbatim>\<open>/fishes/i\<close> is answered 200 with the
  record. When the query holds no \<^verbatim>\<open>/\<close>, the third component, which is looked up, is
  \<open>i\<close> with \<^verbatim>\<open>?\<close> and the query appended, and that is no key of the store; when the
  query holds a \<^verbatim>\<open>/\<close>, there are more than three components and nothing is looked
  up.
\<close>

theorem query_string_hides_the_record:
  assumes "reachable db" and "db i = Some f"
    and "URL_String (URL r) = ''/fishes/'' @ i @ CHR ''?'' # q"
    and "URL_String (URL r0) = ''/fishes/'' @ i"
  shows "getFish keys rnd fresh r db = Some (WriteHeader StatusNotFound fresh, db)
    \<and> status (WriteHeader StatusNotFound fresh) = Some StatusNotFound
    \<and> (CHR ''/'' \<notin> set q \<longrightarrow>
         Split (URL_String (URL r)) CHR ''/'' = ['''', ''fishes'', i @ CHR ''?'' # q]
         \<and> Get (i @ CHR ''?'' # q) db = None)
    \<and> (CHR ''/'' \<in> set q \<longrightarrow> 3 < length (Split (URL_String (URL r)) CHR ''/''))
    \<and> getFish keys rnd fresh r0 db = Some (found_fish f, db)
    \<and> status (found_fish f) = Some StatusOK
    \<and> body (found_fish f) = [JSON (encode_Fish f)]"
proof -
  let ?seg = "i @ CHR ''?'' # q"
  have keyed: "clock_keyed db"
    using assms(1) by (rule reachable_clock_keyed)
  have url: "URL_String (URL r) = ''/fishes/'' @ ?seg"
    by (rule assms(3))
  have no_slash: "CHR ''/'' \<notin> set i"
    using keyed assms(2) by (rule clock_key_no_slash)
  have not_key: "db ?seg = None"
  proof (rule ccontr)
    assume "db ?seg \<noteq> None"
    then obtain g where "db ?seg = Some g" by auto
    with keyed have "CHR ''?'' \<notin> set ?seg" by (rule clock_key_no_question)
    then show False by simp
  qed
  have not_random: "?seg \<noteq> ''random''"
  proof
    assume e: "?seg = ''random''"
    have "CHR ''?'' \<in> set ?seg" by simp
    then have "CHR ''?'' \<in> set ''random''" unfolding e .
    then show False by simp
  qed
  have hidden: "getFish keys rnd fresh r db = Some (WriteHeader StatusNotFound fresh, db)"
  proof (cases "CHR ''/'' \<in> set ?seg")
    case True
    with url show ?thesis by (rule getFish_more_segments)
  next
    case False
    with url have "getFish keys rnd fresh r db =
        (case db ?seg of None \<Rightarrow> Some (WriteHeader StatusNotFound fresh, db)
         | Some f \<Rightarrow> Some (found_fish f, db))"
      using not_random by (rule getFish_segment)
    with not_key show ?thesis by simp
  qed
  have segment: "Split (URL_String (URL r)) CHR ''/'' = ['''', ''fishes'', ?seg]"
    if "CHR ''/'' \<notin> set q"
  proof -
    from that no_slash have n: "CHR ''/'' \<notin> set ?seg" by simp
    show ?thesis
      unfolding url Split_fishes Split_no_sep [OF n] by (rule refl)
  qed
  have more: "3 < length (Split (URL_String (URL r)) CHR ''/'')" if "CHR ''/'' \<in> set q"
  proof -
    from that have "CHR ''/'' \<in> set ?seg" by simp
    then show ?thesis
      unfolding url by (rule Split_more_than_three)
  qed
  have "getFish keys rnd fresh r0 db =
      (case db i of None \<Rightarrow> Some (WriteHeader StatusNotFound fresh, db)
       | Some f \<Rightarrow> Some (found_fish f, db))"
    using assms(4) no_slash clock_key_not_random [OF keyed assms(2)] by (rule getFish_segment)
  with assms(2) have found: "getFish keys rnd fresh r0 db = Some (found_fish f, db)"
    by simp
  from hidden segment more found not_key show ?thesis
    by (simp add: status_WriteHeader_fresh found_fish_sent Get_def)
qed

theorem query_string_hides_the_record_witness:
  "reachable one_fish \<and> one_fish ''123'' = Some (salmon\<lparr>ID := ''123''\<rparr>)
   \<and> URL_String (URL (get_request ''/fishes/123'' ''/fishes/123?x=1''))
       = ''/fishes/'' @ ''123'' @ CHR ''?'' # ''x=1''
   \<and> URL_String (URL (get_request ''/fishes/123'' ''/fishes/123'')) = ''/fishes/'' @ ''123''
   \<and> getFish [''123''] 7 fresh (get_request ''/fishes/123'' ''/fishes/123?x=1'') one_fish
       = Some (WriteHeader StatusNotFound fresh, one_fish)
   \<and> Split (URL_String (URL (get_request ''/fishes/123'' ''/fishes/123?x=1''))) CHR ''/''
       = ['''', ''fishes'', ''123?x=1'']
   \<and> getFish [''123''] 7 fresh (get_request ''/fishes/123'' ''/fishes/123'') one_fish
       = Some (found_fish (salmon\<lparr>ID := ''123''\<rparr>), one_fish)"
proof -
  have stored: "one_fish ''123'' = Some (salmon\<lparr>ID := ''123''\<rparr>)"
    by (simp add: one_fish_eq)
  have u: "URL_String (URL (get_request ''/fishes/123'' ''/fishes/123?x=1''))
       = ''/fishes/'' @ ''123'' @ CHR ''?'' # ''x=1''"
    and u0: "URL_String (URL (get_request ''/fishes/123'' ''/fishes/123'')) = ''/fishes/'' @ ''123''"
    by (simp_all add: URL_String_get_request)
  from query_string_hides_the_record [OF reachable_one_fish stored u u0, of "[''123'']" 7]
    reachable_one_fish stored u u0
  show ?thesis
    by simp
qed

end
